theory Spec2Isabelle
  imports Main "HOL-Library.Finite_Map"
begin

section \<open>GenSON: the schema root (genson/schema/root.py)\<close>

text \<open>
  \<^verbatim>\<open>SchemaRoot\<close> owns a \<^verbatim>\<open>SchemaNode\<close> (the inference engine), keeps the value
  of the \<^verbatim>\<open>$schema\<close> keyword in \<^verbatim>\<open>schema_uri\<close>, and strips that keyword from
  every schema before it hands the schema to the node.

  The embedding keeps Python's object identity: schemas, roots and nodes live in an
  object store, \<^verbatim>\<open>del\<close> mutates the stored dictionary in place, \<^verbatim>\<open>dict(schema)\<close>
  and \<^verbatim>\<open>to_schema\<close> allocate a new one. That is what the non-mutation properties
  are about.
\<close>

subsection \<open>JSON values and dictionaries\<close>

text \<open>
  A Python value that \<^verbatim>\<open>json\<close> can serialise; \<open>JNull\<close> is \<^verbatim>\<open>None\<close>. A
  \<^verbatim>\<open>dict\<close> is a finite map from keys to values. Floating-point numbers are left
  out: \<^verbatim>\<open>root.py\<close> never looks inside a number.
\<close>

datatype json =
    JNull
  | JBool bool
  | JInt int
  | JStr string
  | JArr "json list"
  | JObj "(string, json) fmap"

type_synonym dict = "(string, json) fmap"

text \<open>Python's truth value of an object, as \<^verbatim>\<open>or\<close> tests it.\<close>

fun truthy :: "json \<Rightarrow> bool" where
  "truthy JNull = False"
| "truthy (JBool b) = b"
| "truthy (JInt i) = (i \<noteq> 0)"
| "truthy (JStr s) = (s \<noteq> [])"
| "truthy (JArr xs) = (xs \<noteq> [])"
| "truthy (JObj d) = (d \<noteq> fmempty)"

text \<open>\<^verbatim>\<open>x or y\<close>: the first operand when it is true, else the second.\<close>

definition py_or :: "json \<Rightarrow> json \<Rightarrow> json" where
  "py_or x y = (if truthy x then x else y)"

text \<open>\<^verbatim>\<open>d.update(e)\<close>: the entries of \<open>e\<close> win.\<close>

definition dict_update :: "dict \<Rightarrow> dict \<Rightarrow> dict" where
  "dict_update d e = fmadd d e"

text \<open>\<^verbatim>\<open>k in d\<close>.\<close>

definition has_key :: "string \<Rightarrow> dict \<Rightarrow> bool" where
  "has_key k d = (fmlookup d k \<noteq> None)"

subsection \<open>The inference engine\<close>

text \<open>
  \<^verbatim>\<open>SchemaNode\<close> is imported from \<^verbatim>\<open>genson/schema/node.py\<close>, which is not part of
  the source unit. Its five operations that \<^verbatim>\<open>root.py\<close> calls are parameters of
  the embedding, over a type \<open>'n\<close> of node states: the constructor, \<^verbatim>\<open>add_schema\<close>,
  \<^verbatim>\<open>add_object\<close>, \<^verbatim>\<open>to_schema\<close>, \<^verbatim>\<open>__len__\<close> and \<^verbatim>\<open>__eq__\<close>. They read
  their arguments and change the node only.
\<close>

record 'n engine =
  node_init :: "'n"
  node_add_schema :: "'n \<Rightarrow> dict \<Rightarrow> 'n"
  node_add_object :: "'n \<Rightarrow> json \<Rightarrow> 'n"
  node_to_schema :: "'n \<Rightarrow> dict"
  node_len :: "'n \<Rightarrow> nat"
  node_eq :: "'n \<Rightarrow> 'n \<Rightarrow> bool"

subsection \<open>Objects and the store\<close>

record 'n schema_root =
  root_node :: "'n"
  schema_uri :: "json"

text \<open>
  The three kinds of object that \<^verbatim>\<open>add_schema\<close> tells apart with
  \<^verbatim>\<open>isinstance\<close>: a \<^verbatim>\<open>dict\<close>, a \<^verbatim>\<open>SchemaRoot\<close> and a \<^verbatim>\<open>SchemaNode\<close>.
\<close>

datatype 'n obj =
    Dict dict
  | Root "'n schema_root"
  | Node "'n"

type_synonym addr = nat
type_synonym 'n heap = "'n obj list"

definition lookup :: "'n heap \<Rightarrow> addr \<Rightarrow> 'n obj option" where
  "lookup h a = (if a < length h then Some (h ! a) else None)"

definition alloc :: "'n heap \<Rightarrow> 'n obj \<Rightarrow> 'n heap \<times> addr" where
  "alloc h v = (h @ [v], length h)"

definition get_root :: "'n heap \<Rightarrow> addr \<Rightarrow> 'n schema_root option" where
  "get_root h a = (case lookup h a of Some (Root r) \<Rightarrow> Some r | _ \<Rightarrow> None)"

definition get_dict :: "'n heap \<Rightarrow> addr \<Rightarrow> dict option" where
  "get_dict h a = (case lookup h a of Some (Dict d) \<Rightarrow> Some d | _ \<Rightarrow> None)"

text \<open>
  \<^verbatim>\<open>del schema[k]\<close> on the dictionary stored at \<open>a\<close>: it is changed in place, and a
  missing key raises \<^verbatim>\<open>KeyError\<close> (\<open>None\<close>).
\<close>

definition del_item :: "'n heap \<Rightarrow> addr \<Rightarrow> string \<Rightarrow> 'n heap option" where
  "del_item h a k =
     (case get_dict h a of
        None \<Rightarrow> None
      | Some d \<Rightarrow> if has_key k d then Some (h[a := Dict (fmdrop k d)]) else None)"

subsection \<open>SchemaRoot\<close>

definition DEFAULT_URI :: "json" where
  "DEFAULT_URI = JStr ''http://json-schema.org/schema#''"

text \<open>\<^verbatim>\<open>__init__(self, schema_uri=None)\<close>: a new root with a new, empty node.\<close>

definition schema_root_init :: "'n engine \<Rightarrow> 'n heap \<Rightarrow> json \<Rightarrow> 'n heap \<times> addr" where
  "schema_root_init E h uri = alloc h (Root \<lparr>root_node = node_init E, schema_uri = uri\<rparr>)"

text \<open>\<^verbatim>\<open>_base_schema\<close>: \<^verbatim>\<open>{'$schema': self.schema_uri or self.DEFAULT_URI}\<close>.\<close>

definition base_schema :: "'n schema_root \<Rightarrow> dict" where
  "base_schema r = fmupd ''$schema'' (py_or (schema_uri r) DEFAULT_URI) fmempty"

text \<open>
  \<^verbatim>\<open>to_schema\<close>: a new dictionary, the base schema updated with the node's schema.
\<close>

definition to_schema :: "'n engine \<Rightarrow> 'n heap \<Rightarrow> addr \<Rightarrow> ('n heap \<times> addr) option" where
  "to_schema E h a =
     (case get_root h a of
        None \<Rightarrow> None
      | Some r \<Rightarrow>
          Some (alloc h (Dict (dict_update (base_schema r) (node_to_schema E (root_node r))))))"

text \<open>
  Lines 95 to 101 of \<^verbatim>\<open>add_schema\<close>: the \<^verbatim>\<open>isinstance\<close> dispatch. The result is
  the store and the object that the local variable \<^verbatim>\<open>schema\<close> refers to afterwards.
\<close>

definition resolve :: "'n engine \<Rightarrow> 'n heap \<Rightarrow> addr \<Rightarrow> ('n heap \<times> addr) option" where
  "resolve E h s =
     (case lookup h s of
        None \<Rightarrow> None
      | Some (Root r) \<Rightarrow>
          (case to_schema E h s of
             None \<Rightarrow> None
           | Some (h1, s1) \<Rightarrow>
               if schema_uri r = JNull
               then (case del_item h1 s1 ''$schema'' of
                       None \<Rightarrow> None
                     | Some h2 \<Rightarrow> Some (h2, s1))
               else Some (h1, s1))
      | Some (Node n) \<Rightarrow> Some (alloc h (Dict (node_to_schema E n)))
      | Some (Dict d) \<Rightarrow> Some (h, s))"

text \<open>
  Lines 103 to 106: when \<^verbatim>\<open>schema\<close> has the key, \<^verbatim>\<open>self.schema_uri\<close> becomes
  \<^verbatim>\<open>self.schema_uri or schema['$schema']\<close>, and \<^verbatim>\<open>schema\<close> is rebound to a copy from
  which the key is deleted.
\<close>

definition strip_uri :: "'n heap \<Rightarrow> addr \<Rightarrow> addr \<Rightarrow> ('n heap \<times> addr) option" where
  "strip_uri h self s =
     (case get_dict h s of
        None \<Rightarrow> None
      | Some d \<Rightarrow>
          (case fmlookup d ''$schema'' of
             None \<Rightarrow> Some (h, s)
           | Some v \<Rightarrow>
               (case get_root h self of
                  None \<Rightarrow> None
                | Some r \<Rightarrow>
                    let h1 = h[self := Root (r\<lparr>schema_uri := py_or (schema_uri r) v\<rparr>)];
                        (h2, s2) = alloc h1 (Dict d)
                    in (case del_item h2 s2 ''$schema'' of
                          None \<Rightarrow> None
                        | Some h3 \<Rightarrow> Some (h3, s2)))))"

text \<open>Line 107: \<^verbatim>\<open>self._root_node.add_schema(schema)\<close>.\<close>

definition delegate :: "'n engine \<Rightarrow> 'n heap \<Rightarrow> addr \<Rightarrow> addr \<Rightarrow> 'n heap option" where
  "delegate E h self s =
     (case get_root h self of
        None \<Rightarrow> None
      | Some r \<Rightarrow>
          (case get_dict h s of
             None \<Rightarrow> None
           | Some d \<Rightarrow>
               Some (h[self := Root (r\<lparr>root_node := node_add_schema E (root_node r) d\<rparr>)])))"

text \<open>
  \<^verbatim>\<open>add_schema(self, schema)\<close>. \<open>None\<close> stands for an exception, or for a call
  whose \<^verbatim>\<open>self\<close> is not a \<^verbatim>\<open>SchemaRoot\<close> or whose argument is none of the three
  kinds of object.
\<close>

definition add_schema :: "'n engine \<Rightarrow> 'n heap \<Rightarrow> addr \<Rightarrow> addr \<Rightarrow> 'n heap option" where
  "add_schema E h self s =
     (case get_root h self of
        None \<Rightarrow> None
      | Some _ \<Rightarrow>
          (case resolve E h s of
             None \<Rightarrow> None
           | Some (h1, s1) \<Rightarrow>
               (case strip_uri h1 self s1 of
                  None \<Rightarrow> None
                | Some (h2, s2) \<Rightarrow> delegate E h2 self s2)))"

text \<open>\<^verbatim>\<open>add_object(self, obj)\<close>: \<^verbatim>\<open>self._root_node.add_object(obj)\<close>.\<close>

definition add_object :: "'n engine \<Rightarrow> 'n heap \<Rightarrow> addr \<Rightarrow> json \<Rightarrow> 'n heap option" where
  "add_object E h self v =
     (case get_root h self of
        None \<Rightarrow> None
      | Some r \<Rightarrow>
          Some (h[self := Root (r\<lparr>root_node := node_add_object E (root_node r) v\<rparr>)]))"

text \<open>\<^verbatim>\<open>__len__\<close>: \<^verbatim>\<open>len(self._root_node)\<close>.\<close>

definition schema_root_len :: "'n engine \<Rightarrow> 'n heap \<Rightarrow> addr \<Rightarrow> nat option" where
  "schema_root_len E h self = map_option (\<lambda>r. node_len E (root_node r)) (get_root h self)"



text \<open>
  The value of the local variable \<^verbatim>\<open>schema\<close> after the dispatch of lines 95 to 101,
  read off \<open>resolve\<close> for each kind of argument (lemma \<open>resolve_fragment_of\<close>).
\<close>

fun fragment_of :: "'n engine \<Rightarrow> 'n obj \<Rightarrow> dict" where
  "fragment_of E (Dict d) = d"
| "fragment_of E (Root r) =
     (if schema_uri r = JNull
      then fmdrop ''$schema'' (dict_update (base_schema r) (node_to_schema E (root_node r)))
      else dict_update (base_schema r) (node_to_schema E (root_node r)))"
| "fragment_of E (Node n) = node_to_schema E n"

subsection \<open>Sequences of calls\<close>

text \<open>
  A client's history: \<^verbatim>\<open>add_schema\<close> and \<^verbatim>\<open>add_object\<close> calls, each with its
  receiver first, run in order; an exception ends the run.
\<close>

datatype call =
    AddSchema addr addr
  | AddObject addr json

fun receiver :: "call \<Rightarrow> addr" where
  "receiver (AddSchema self s) = self"
| "receiver (AddObject self v) = self"

fun step :: "'n engine \<Rightarrow> 'n heap \<Rightarrow> call \<Rightarrow> 'n heap option" where
  "step E h (AddSchema self s) = add_schema E h self s"
| "step E h (AddObject self v) = add_object E h self v"

fun run :: "'n engine \<Rightarrow> 'n heap \<Rightarrow> call list \<Rightarrow> 'n heap option" where
  "run E h [] = Some h"
| "run E h (c # cs) = (case step E h c of None \<Rightarrow> None | Some h' \<Rightarrow> run E h' cs)"

text \<open>
  A call is well formed in a store when its receiver is a \<^verbatim>\<open>SchemaRoot\<close> there and
  its argument is an object of the store; Python cannot express any other call.
\<close>

definition is_root :: "'n heap \<Rightarrow> addr \<Rightarrow> bool" where
  "is_root h a = (get_root h a \<noteq> None)"

fun well_formed :: "'n heap \<Rightarrow> call \<Rightarrow> bool" where
  "well_formed h (AddSchema self s) = (is_root h self \<and> lookup h s \<noteq> None)"
| "well_formed h (AddObject self v) = is_root h self"

subsection \<open>The contract of the engine\<close>

text \<open>
  Modelled from the spec: \<^verbatim>\<open>SchemaNode\<close> (\<^verbatim>\<open>genson/schema/node.py\<close>) is missing from
  the source unit. Section 6 of the specification requires of its \<^verbatim>\<open>to_schema\<close>
  that the result never contains a dialect-identifier key.
\<close>

definition engine_no_uri :: "'n engine \<Rightarrow> bool" where
  "engine_no_uri E \<longleftrightarrow> (\<forall>n. \<not> has_key ''$schema'' (node_to_schema E n))"

text \<open>
  Modelled from the spec: \<^verbatim>\<open>SchemaNode.__len__\<close> is missing from the source unit.
  Section 6 requires a size that is \<open>0\<close> iff no \<^verbatim>\<open>add_schema\<close> or \<^verbatim>\<open>add_object\<close>
  of the node has ever succeeded: a property of the node's history since its
  construction.
\<close>

datatype node_call =
    NodeAddSchema dict
  | NodeAddObject json

fun node_step :: "'n engine \<Rightarrow> 'n \<Rightarrow> node_call \<Rightarrow> 'n" where
  "node_step E n (NodeAddSchema d) = node_add_schema E n d"
| "node_step E n (NodeAddObject v) = node_add_object E n v"

definition node_run :: "'n engine \<Rightarrow> node_call list \<Rightarrow> 'n" where
  "node_run E cs = foldl (node_step E) (node_init E) cs"

definition engine_size_contract :: "'n engine \<Rightarrow> bool" where
  "engine_size_contract E \<longleftrightarrow> (\<forall>cs. (node_len E (node_run E cs) = 0) = (cs = []))"



subsection \<open>An engine that meets the contract\<close>

text \<open>
  A small engine on which the theorems below are instantiated: it counts the calls,
  merges the schemas it is given key by key, and records the JSON type of the objects.
\<close>

fun type_name :: "json \<Rightarrow> string" where
  "type_name JNull = ''null''"
| "type_name (JBool b) = ''boolean''"
| "type_name (JInt i) = ''integer''"
| "type_name (JStr s) = ''string''"
| "type_name (JArr xs) = ''array''"
| "type_name (JObj d) = ''object''"

definition sample_engine :: "(nat \<times> dict) engine" where
  "sample_engine =
     \<lparr>node_init = (0, fmempty),
      node_add_schema = (\<lambda>n d. (Suc (fst n), fmadd (snd n) (fmdrop ''$schema'' d))),
      node_add_object = (\<lambda>n v. (Suc (fst n), fmupd ''type'' (JStr (type_name v)) (snd n))),
      node_to_schema = (\<lambda>n. fmdrop ''$schema'' (snd n)),
      node_len = fst,
      node_eq = (=)\<rparr>"

section \<open>Properties\<close>

subsection \<open>The store and dictionaries\<close>

lemma lookup_Some_iff: "lookup h a = Some v \<longleftrightarrow> a < length h \<and> h ! a = v"
  by (auto simp: lookup_def)

lemma get_root_Some_iff: "get_root h a = Some r \<longleftrightarrow> a < length h \<and> h ! a = Root r"
  by (auto simp: get_root_def lookup_def split: obj.splits)

lemma get_dict_Some_iff: "get_dict h a = Some d \<longleftrightarrow> a < length h \<and> h ! a = Dict d"
  by (auto simp: get_dict_def lookup_def split: obj.splits)

lemma get_dict_snoc: "get_dict (h @ [Dict d]) (length h) = Some d"
  by (simp add: get_dict_Some_iff)

lemma has_key_base_schema: "has_key ''$schema'' (dict_update (base_schema r) e)"
  by (auto simp: has_key_def dict_update_def base_schema_def fmlookup_dom_iff)

lemma not_has_key_fmdrop: "\<not> has_key k (fmdrop k d)"
  by (simp add: has_key_def)

lemma lookup_uri_to_schema:
  assumes "\<not> has_key ''$schema'' e"
  shows "fmlookup (dict_update (base_schema r) e) ''$schema'' = Some (py_or (schema_uri r) DEFAULT_URI)"
  using assms by (simp add: dict_update_def base_schema_def has_key_def fmlookup_dom_iff)



subsection \<open>What the parts of add_schema compute\<close>

lemma to_schema_Some:
  assumes "get_root h a = Some r"
  shows "to_schema E h a =
     Some (h @ [Dict (dict_update (base_schema r) (node_to_schema E (root_node r)))], length h)"
  using assms by (simp add: to_schema_def alloc_def)

lemma resolve_Dict:
  "lookup h s = Some (Dict d) \<Longrightarrow> resolve E h s = Some (h, s)"
  by (simp add: resolve_def)

lemma resolve_Node:
  "lookup h s = Some (Node n) \<Longrightarrow> resolve E h s = Some (h @ [Dict (node_to_schema E n)], length h)"
  by (simp add: resolve_def alloc_def)

lemma resolve_Root:
  assumes "lookup h s = Some (Root r)"
  shows "resolve E h s =
     Some (h @ [Dict (if schema_uri r = JNull
                      then fmdrop ''$schema'' (dict_update (base_schema r) (node_to_schema E (root_node r)))
                      else dict_update (base_schema r) (node_to_schema E (root_node r)))], length h)"
  using assms
  by (simp add: resolve_def to_schema_def get_root_def alloc_def del_item_def get_dict_def
      lookup_def has_key_base_schema)

lemma strip_uri_absent:
  "get_dict h s = Some d \<Longrightarrow> fmlookup d ''$schema'' = None \<Longrightarrow> strip_uri h self s = Some (h, s)"
  by (simp add: strip_uri_def)

lemma strip_uri_present:
  assumes "get_dict h s = Some d" "fmlookup d ''$schema'' = Some v" "get_root h self = Some r"
  shows "strip_uri h self s =
     Some (h[self := Root (r\<lparr>schema_uri := py_or (schema_uri r) v\<rparr>)] @ [Dict (fmdrop ''$schema'' d)],
           length h)"
  using assms
  by (simp add: strip_uri_def alloc_def del_item_def get_dict_def lookup_def has_key_def)

lemma resolve_fragment_of:
  assumes "lookup h s = Some ob"
  shows "\<exists>h1 s1. resolve E h s = Some (h1, s1) \<and> get_dict h1 s1 = Some (fragment_of E ob)
            \<and> length h \<le> length h1 \<and> take (length h) h1 = h"
proof (cases ob)
  case (Dict d)
  with assms show ?thesis
    by (auto simp: resolve_Dict get_dict_def lookup_def split: if_splits)
next
  case (Root r)
  with assms show ?thesis
    by (simp add: resolve_Root get_dict_def lookup_def)
next
  case (Node n)
  with assms show ?thesis
    by (simp add: resolve_Node get_dict_def lookup_def)
qed


text \<open>
  Lines 103 to 107 on a dictionary \<open>d\<close>: the node receives \<open>d\<close> without the key, the root
  adopts the value of the key as line 104 says, and no other object of the store changes.
\<close>

lemma strip_delegate:
  assumes r: "get_root h self = Some r" and d: "get_dict h s = Some d"
  shows "\<exists>h2 s2 h'. strip_uri h self s = Some (h2, s2) 
            \<and> get_dict h2 s2 = Some (fmdrop ''$schema'' d)
            \<and> delegate E h2 self s2 = Some h'
            \<and> length h \<le> length h'
            \<and> (\<forall>b<length h. b \<noteq> self \<longrightarrow> h' ! b = h ! b)
            \<and> get_root h' self =
                Some \<lparr>root_node = node_add_schema E (root_node r) (fmdrop ''$schema'' d),
                      schema_uri = (case fmlookup d ''$schema'' of
                                      None \<Rightarrow> schema_uri r
                                    | Some v \<Rightarrow> py_or (schema_uri r) v)\<rparr>"
proof (cases "fmlookup d ''$schema''")
  case None
  have ne: "s \<noteq> self" using r d by (auto simp: get_root_Some_iff get_dict_Some_iff)
  have dd: "fmdrop ''$schema'' d = d"
    using None by (simp add: fmdrop_idle fmdom_notI)
  show ?thesis
    using r d None ne
    by (simp add: strip_uri_absent delegate_def dd)
       (simp add: get_root_Some_iff get_dict_Some_iff)
next
  case (Some v)
  define r1 where "r1 = r\<lparr>schema_uri := py_or (schema_uri r) v\<rparr>"
  define h2 where "h2 = h[self := Root r1] @ [Dict (fmdrop ''$schema'' d)]"
  define h' where
    "h' = h2[self := Root (r1\<lparr>root_node := node_add_schema E (root_node r1) (fmdrop ''$schema'' d)\<rparr>)]"
  have lt: "self < length h" using r by (simp add: get_root_Some_iff)
  have st: "strip_uri h self s = Some (h2, length h)"
    using r d Some by (simp add: strip_uri_present h2_def r1_def)
  have gr: "get_root h2 self = Some r1"
    using lt by (simp add: get_root_Some_iff h2_def nth_append)
  have gd: "get_dict h2 (length h) = Some (fmdrop ''$schema'' d)"
    by (simp add: get_dict_Some_iff h2_def nth_append)
  have de: "delegate E h2 self (length h) = Some h'"
    by (simp add: delegate_def gr gd h'_def)
  have len: "length h \<le> length h'"
    by (simp add: h'_def h2_def)
  have fr: "\<forall>b<length h. b \<noteq> self \<longrightarrow> h' ! b = h ! b"
    by (simp add: h'_def h2_def nth_append)
  have fin: "get_root h' self =
      Some \<lparr>root_node = node_add_schema E (root_node r) (fmdrop ''$schema'' d),
            schema_uri = py_or (schema_uri r) v\<rparr>"
    using lt by (simp add: get_root_Some_iff h'_def h2_def r1_def)
  show ?thesis
    using st gd de len fr fin Some by auto
qed

text \<open>
  The whole of \<^verbatim>\<open>add_schema\<close>: it returns for every root and every argument in the
  store, only appends to the store, and changes no object but its receiver.
\<close>

lemma add_schema_effect:
  assumes r: "get_root h self = Some r" and ob: "lookup h s = Some ob"
  shows "\<exists>h'. add_schema E h self s = Some h'
            \<and> length h \<le> length h'
            \<and> (\<forall>b<length h. b \<noteq> self \<longrightarrow> h' ! b = h ! b)
            \<and> get_root h' self =
                Some \<lparr>root_node = node_add_schema E (root_node r) (fmdrop ''$schema'' (fragment_of E ob)),
                      schema_uri = (case fmlookup (fragment_of E ob) ''$schema'' of
                                      None \<Rightarrow> schema_uri r
                                    | Some v \<Rightarrow> py_or (schema_uri r) v)\<rparr>"
proof -
  from resolve_fragment_of [OF ob, of E] obtain h1 s1 where
    res: "resolve E h s = Some (h1, s1)" and
    gd: "get_dict h1 s1 = Some (fragment_of E ob)" and
    len1: "length h \<le> length h1" and tk: "take (length h) h1 = h"
    by blast
  have same: "\<And>b. b < length h \<Longrightarrow> h1 ! b = h ! b"
    using tk by (metis nth_take)
  have r1: "get_root h1 self = Some r"
    using r len1 same by (auto simp: get_root_Some_iff)
  from strip_delegate [OF r1 gd, of E] obtain h2 s2 h' where
    st: "strip_uri h1 self s1 = Some (h2, s2)" and
    de: "delegate E h2 self s2 = Some h'" and
    len2: "length h1 \<le> length h'" and
    fr: "\<forall>b<length h1. b \<noteq> self \<longrightarrow> h' ! b = h1 ! b" and
    fin: "get_root h' self =
       Some \<lparr>root_node = node_add_schema E (root_node r) (fmdrop ''$schema'' (fragment_of E ob)),
             schema_uri = (case fmlookup (fragment_of E ob) ''$schema'' of
                             None \<Rightarrow> schema_uri r
                           | Some v \<Rightarrow> py_or (schema_uri r) v)\<rparr>"
    by blast
  have "add_schema E h self s = Some h'"
    using r res st de by (simp add: add_schema_def)
  moreover have "length h \<le> length h'" using len1 len2 by simp
  moreover have "\<forall>b<length h. b \<noteq> self \<longrightarrow> h' ! b = h ! b"
    using fr same len1 by auto
  ultimately show ?thesis using fin by blast
qed

subsection \<open>Runs of calls\<close>

lemma node_step_add_object: "\<exists>x. node_add_object E n v = node_step E n x"
  by (rule exI [of _ "NodeAddObject v"]) simp

lemma step_effect:
  assumes "well_formed h c"
  shows "\<exists>h'. step E h c = Some h' \<and> length h \<le> length h'
           \<and> (\<forall>b<length h. b \<noteq> receiver c \<longrightarrow> h' ! b = h ! b)
           \<and> (\<forall>r. get_root h (receiver c) = Some r \<longrightarrow>
                 (\<exists>r' x. get_root h' (receiver c) = Some r'
                        \<and> root_node r' = node_step E (root_node r) x))"
proof (cases c)
  case (AddSchema self s)
  from assms AddSchema obtain r ob where
    r: "get_root h self = Some r" and ob: "lookup h s = Some ob"
    by (auto simp: is_root_def)
  from add_schema_effect [OF r ob, of E] obtain h' r' where
    ad: "add_schema E h self s = Some h'" and len: "length h \<le> length h'" and
    fr: "\<forall>b<length h. b \<noteq> self \<longrightarrow> h' ! b = h ! b" and
    r': "get_root h' self = Some r'" and
    n': "root_node r' = node_add_schema E (root_node r) (fmdrop ''$schema'' (fragment_of E ob))"
    by auto
  have "root_node r' = node_step E (root_node r) (NodeAddSchema (fmdrop ''$schema'' (fragment_of E ob)))"
    using n' by simp
  with r r' have "\<forall>r0. get_root h self = Some r0 \<longrightarrow>
      (\<exists>r' x. get_root h' self = Some r' \<and> root_node r' = node_step E (root_node r0) x)"
    by (metis option.inject)
  then show ?thesis
    using AddSchema ad len fr by simp
next
  case (AddObject self v)
  from assms AddObject obtain r where r: "get_root h self = Some r"
    by (auto simp: is_root_def)
  have ad: "add_object E h self v =
      Some (h[self := Root (r\<lparr>root_node := node_add_object E (root_node r) v\<rparr>)])"
    using r by (simp add: add_object_def)
  have fin: "get_root (h[self := Root (r\<lparr>root_node := node_add_object E (root_node r) v\<rparr>)]) self =
      Some (r\<lparr>root_node := node_step E (root_node r) (NodeAddObject v)\<rparr>)"
    using r by (simp add: get_root_Some_iff)
  show ?thesis
    using AddObject r ad fin node_step_add_object [of E "root_node r" v] by auto
qed

lemma well_formed_mono:
  assumes "well_formed h c" and "length h \<le> length h'"
    and "\<forall>b<length h. is_root h b \<longrightarrow> is_root h' b"
  shows "well_formed h' c"
proof -
  have root: "\<And>b. is_root h b \<Longrightarrow> is_root h' b"
    using assms(3) by (auto simp: is_root_def get_root_def lookup_def split: if_splits)
  have look: "\<And>b. lookup h b \<noteq> None \<Longrightarrow> lookup h' b \<noteq> None"
    using assms(2) by (auto simp: lookup_def split: if_splits)
  show ?thesis
    using assms(1) root look by (cases c) auto
qed

lemma step_keeps_roots:
  assumes "well_formed h c" and "step E h c = Some h'" and "is_root h b"
  shows "is_root h' b"
proof -
  from step_effect [OF assms(1), of E] assms(2) have
    len: "length h \<le> length h'" and
    fr: "\<forall>b<length h. b \<noteq> receiver c \<longrightarrow> h' ! b = h ! b" and
    fin: "\<forall>r. get_root h (receiver c) = Some r \<longrightarrow> (\<exists>r'. get_root h' (receiver c) = Some r')"
    by auto
  from assms(3) obtain r where r: "get_root h b = Some r"
    by (auto simp: is_root_def)
  show ?thesis
  proof (cases "b = receiver c")
    case True
    with r fin show ?thesis by (auto simp: is_root_def)
  next
    case False
    with r len fr have "get_root h' b = Some r"
      by (auto simp: get_root_Some_iff)
    then show ?thesis by (simp add: is_root_def)
  qed
qed

text \<open>
  The node of a root is the engine's fold over the calls that the root has received:
  every call on the root adds one call of the node, and calls on other roots add none.
\<close>

lemma run_history:
  assumes "\<forall>c\<in>set cs. well_formed h c" and "get_root h a = Some r"
    and "root_node r = foldl (node_step E) n0 xs"
  shows "\<exists>h' r' ys. run E h cs = Some h' \<and> get_root h' a = Some r'
           \<and> root_node r' = foldl (node_step E) n0 (xs @ ys)
           \<and> (ys = [] \<longleftrightarrow> (\<forall>c\<in>set cs. receiver c \<noteq> a))"
  using assms
proof (induction cs arbitrary: h r xs)
  case Nil
  then show ?case by auto
next
  case (Cons c cs)
  have wf: "well_formed h c" using Cons.prems(1) by simp
  from step_effect [OF wf, of E] obtain h1 where
    st: "step E h c = Some h1" and len: "length h \<le> length h1" and
    fr: "\<forall>b<length h. b \<noteq> receiver c \<longrightarrow> h1 ! b = h ! b" and
    fin: "\<forall>r. get_root h (receiver c) = Some r \<longrightarrow>
            (\<exists>r' x. get_root h1 (receiver c) = Some r'
                   \<and> root_node r' = node_step E (root_node r) x)"
    by blast
  have wf1: "\<forall>c'\<in>set cs. well_formed h1 c'"
  proof
    fix c' assume "c' \<in> set cs"
    then have "well_formed h c'" using Cons.prems(1) by simp
    then show "well_formed h1 c'"
      using len step_keeps_roots [OF wf st] by (auto intro: well_formed_mono)
  qed
  show ?case
  proof (cases "receiver c = a")
    case True
    from fin True Cons.prems(2) obtain r1 x where
      r1: "get_root h1 a = Some r1" and n1: "root_node r1 = node_step E (root_node r) x"
      by blast
    have n1': "root_node r1 = foldl (node_step E) n0 ((xs @ [x]) @ [])"
      using n1 Cons.prems(3) by simp
    have n1'': "root_node r1 = foldl (node_step E) n0 (xs @ [x])"
      using n1' by simp
    from Cons.IH [OF wf1 r1 n1''] obtain h' r' ys where
      "run E h1 cs = Some h'" "get_root h' a = Some r'"
      "root_node r' = foldl (node_step E) n0 ((xs @ [x]) @ ys)"
      by blast
    then have "run E h (c # cs) = Some h' \<and> get_root h' a = Some r'
        \<and> root_node r' = foldl (node_step E) n0 (xs @ (x # ys))
        \<and> (x # ys = [] \<longleftrightarrow> (\<forall>c'\<in>set (c # cs). receiver c' \<noteq> a))"
      using st True by simp
    then show ?thesis by blast
  next
    case False
    have r1: "get_root h1 a = Some r"
      using Cons.prems(2) False len fr by (auto simp: get_root_Some_iff)
    from Cons.IH [OF wf1 r1 Cons.prems(3)] obtain h' r' ys where
      "run E h1 cs = Some h'" "get_root h' a = Some r'"
      "root_node r' = foldl (node_step E) n0 (xs @ ys)"
      "ys = [] \<longleftrightarrow> (\<forall>c\<in>set cs. receiver c \<noteq> a)"
      by blast
    then have "run E h (c # cs) = Some h' \<and> get_root h' a = Some r'
        \<and> root_node r' = foldl (node_step E) n0 (xs @ ys)
        \<and> (ys = [] \<longleftrightarrow> (\<forall>c'\<in>set (c # cs). receiver c' \<noteq> a))"
      using st False by simp
    then show ?thesis by blast
  qed
qed

subsection \<open>The sample engine meets the contract\<close>

lemma sample_no_uri: "engine_no_uri sample_engine"
  by (simp add: engine_no_uri_def sample_engine_def has_key_def)



lemma sample_step_fst: "fst (node_step sample_engine n c) = Suc (fst n)"
  by (cases c) (simp_all add: sample_engine_def)

lemma sample_fold_len:
  "fst (foldl (node_step sample_engine) n cs) = fst n + length cs"
  by (induction cs arbitrary: n) (simp_all add: sample_step_fst)

lemma sample_size_contract: "engine_size_contract sample_engine"
proof -
  have "node_len sample_engine (node_run sample_engine cs) = length cs" for cs
    using sample_fold_len [of "(0, fmempty)" cs]
    by (simp add: node_run_def sample_engine_def)
  then show ?thesis
    by (simp add: engine_size_contract_def)
qed

subsection \<open>The dialect identifier\<close>

text \<open>
  Claim C1 (first \<^verbatim>\<open>$schema\<close> wins). Line 104 keeps \<^verbatim>\<open>self.schema_uri\<close> when it is
  true in Python's sense, so a \<^verbatim>\<open>schema_uri\<close> that is the empty string, although given to
  the constructor, is replaced by the \<^verbatim>\<open>$schema\<close> of the next schema: a root built with
  \<^verbatim>\<open>SchemaRoot('')\<close> that is given \<^verbatim>\<open>{'$schema': 'U2'}\<close> ends with
  \<^verbatim>\<open>schema_uri == 'U2'\<close>.
\<close>

theorem empty_uri_overwritten:
  "add_schema sample_engine
     [Root \<lparr>root_node = (0, fmempty), schema_uri = JStr ''''\<rparr>,
      Dict (fmupd ''$schema'' (JStr ''U2'') fmempty)] 0 1
   = Some [Root \<lparr>root_node = (1, fmempty), schema_uri = JStr ''U2''\<rparr>,
           Dict (fmupd ''$schema'' (JStr ''U2'') fmempty),
           Dict fmempty]"
  by (simp add: add_schema_def get_root_def lookup_def resolve_def strip_uri_def get_dict_def
      alloc_def del_item_def has_key_def delegate_def py_or_def sample_engine_def fmdrop_fmupd_same)

text \<open>
  Claim C1, as the code has it. For every root and every argument of \<^verbatim>\<open>add_schema\<close>
  (a dictionary, a root or a node), the call returns, and a \<^verbatim>\<open>schema_uri\<close> that is true
  (a non-empty string) is not changed by it. A root whose \<^verbatim>\<open>schema_uri\<close> is
  \<^verbatim>\<open>None\<close> adopts the \<^verbatim>\<open>$schema\<close> of a dictionary that has one, and the
  \<^verbatim>\<open>schema_uri\<close> of another root when that is true and the engine's schema has no
  \<^verbatim>\<open>$schema\<close> key. So after \<open>a\<close> has adopted \<^verbatim>\<open>'U1'\<close>, a schema that carries
  \<^verbatim>\<open>'U2'\<close> leaves it \<^verbatim>\<open>'U1'\<close>.
\<close>

theorem first_uri_wins:
  assumes "get_root h a = Some r" and "lookup h s = Some ob"
  shows "\<exists>h' r'. add_schema E h a s = Some h' \<and> get_root h' a = Some r'
            \<and> (truthy (schema_uri r) \<longrightarrow> schema_uri r' = schema_uri r)
            \<and> (schema_uri r = JNull \<longrightarrow>
                 (\<forall>d u. ob = Dict d \<longrightarrow> fmlookup d ''$schema'' = Some u \<longrightarrow> schema_uri r' = u)
               \<and> (\<forall>rb. ob = Root rb \<longrightarrow> engine_no_uri E \<longrightarrow> truthy (schema_uri rb)
                         \<longrightarrow> schema_uri r' = schema_uri rb))"
proof -
  define r' where
    "r' = \<lparr>root_node = node_add_schema E (root_node r) (fmdrop ''$schema'' (fragment_of E ob)),
           schema_uri = (case fmlookup (fragment_of E ob) ''$schema'' of
                           None \<Rightarrow> schema_uri r
                         | Some v \<Rightarrow> py_or (schema_uri r) v)\<rparr>"
  from add_schema_effect [OF assms, of E] obtain h' where
    ad: "add_schema E h a s = Some h'" and r': "get_root h' a = Some r'"
    by (auto simp: r'_def)
  have keep: "truthy (schema_uri r) \<longrightarrow> schema_uri r' = schema_uri r"
    by (simp add: r'_def py_or_def split: option.splits)
  have raw: "schema_uri r = JNull \<longrightarrow>
      (\<forall>d u. ob = Dict d \<longrightarrow> fmlookup d ''$schema'' = Some u \<longrightarrow> schema_uri r' = u)"
    by (simp add: r'_def py_or_def)
  have root: "schema_uri r = JNull \<longrightarrow>
      (\<forall>rb. ob = Root rb \<longrightarrow> engine_no_uri E \<longrightarrow> truthy (schema_uri rb)
             \<longrightarrow> schema_uri r' = schema_uri rb)"
  proof (intro impI allI)
    fix rb
    assume u: "schema_uri r = JNull" and ob: "ob = Root rb" and E: "engine_no_uri E"
      and t: "truthy (schema_uri rb)"
    have nk: "\<not> has_key ''$schema'' (node_to_schema E (root_node rb))"
      using E by (simp add: engine_no_uri_def)
    have nn: "schema_uri rb \<noteq> JNull" using t by auto
    show "schema_uri r' = schema_uri rb"
      using u t nn lookup_uri_to_schema [OF nk, of rb]
      by (simp add: r'_def ob py_or_def)
  qed
  show ?thesis using ad r' keep raw root by blast
qed

theorem first_uri_wins_witness:
  "engine_no_uri sample_engine
   \<and> (\<exists>h' r'. add_schema sample_engine
          [Root \<lparr>root_node = (0, fmempty), schema_uri = JNull\<rparr>,
           Root \<lparr>root_node = (0, fmempty), schema_uri = JStr ''U1''\<rparr>] 0 1 = Some h'
        \<and> get_root h' 0 = Some r' \<and> schema_uri r' = JStr ''U1'')
   \<and> (\<exists>h' r'. add_schema sample_engine
          [Root \<lparr>root_node = (1, fmempty), schema_uri = JStr ''U1''\<rparr>,
           Dict (fmupd ''$schema'' (JStr ''U2'') fmempty)] 0 1 = Some h'
        \<and> get_root h' 0 = Some r' \<and> schema_uri r' = JStr ''U1'')"
proof -
  let ?a = "\<lparr>root_node = (0::nat, fmempty :: dict), schema_uri = JNull\<rparr>"
  let ?b = "\<lparr>root_node = (0::nat, fmempty :: dict), schema_uri = JStr ''U1''\<rparr>"
  let ?a' = "\<lparr>root_node = (1::nat, fmempty :: dict), schema_uri = JStr ''U1''\<rparr>"
  let ?c = "fmupd ''$schema'' (JStr ''U2'') fmempty :: dict"
  have a: "get_root [Root ?a, Root ?b] 0 = Some ?a"
    by (simp add: get_root_def lookup_def)
  have b: "lookup [Root ?a, Root ?b] 1 = Some (Root ?b)"
    by (simp add: lookup_def)
  have a': "get_root [Root ?a', Dict ?c] 0 = Some ?a'"
    by (simp add: get_root_def lookup_def)
  have c: "lookup [Root ?a', Dict ?c] 1 = Some (Dict ?c)"
    by (simp add: lookup_def)
  show ?thesis
    using sample_no_uri first_uri_wins [OF a b, of sample_engine]
      first_uri_wins [OF a' c, of sample_engine]
    by simp
qed



text \<open>
  Claim C3 (the \<^verbatim>\<open>$schema\<close> of \<^verbatim>\<open>to_schema\<close>). \<^verbatim>\<open>_base_schema\<close> tests the truth
  value of \<^verbatim>\<open>schema_uri\<close>, not whether it is \<^verbatim>\<open>None\<close>: for \<^verbatim>\<open>SchemaRoot('')\<close>
  the \<^verbatim>\<open>$schema\<close> of the result is the default, not the \<^verbatim>\<open>schema_uri\<close> that was set.
\<close>

theorem empty_uri_not_serialised:
  "to_schema sample_engine [Root \<lparr>root_node = (0, fmempty), schema_uri = JStr ''''\<rparr>] 0
   = Some ([Root \<lparr>root_node = (0, fmempty), schema_uri = JStr ''''\<rparr>,
            Dict (fmupd ''$schema'' (JStr ''http://json-schema.org/schema#'') fmempty)], 1)"
  by (simp add: to_schema_def get_root_def lookup_def alloc_def base_schema_def dict_update_def
      py_or_def DEFAULT_URI_def sample_engine_def)

text \<open>
  Claim C3, as the code has it. With an engine whose schema never has a \<^verbatim>\<open>$schema\<close>
  key, \<^verbatim>\<open>to_schema\<close> returns a new dictionary whose \<^verbatim>\<open>$schema\<close> is
  \<^verbatim>\<open>schema_uri\<close> when that is true (a non-empty string), and the default
  \<^verbatim>\<open>'http://json-schema.org/schema#'\<close> when it is \<^verbatim>\<open>None\<close> or false in another way
  (the empty string).
\<close>

theorem to_schema_uri:
  assumes "engine_no_uri E" and "get_root h a = Some r"
  shows "\<exists>h' s d. to_schema E h a = Some (h', s) \<and> get_dict h' s = Some d
            \<and> fmlookup d ''$schema'' =
                Some (if truthy (schema_uri r) then schema_uri r else DEFAULT_URI)"
proof -
  have nk: "\<not> has_key ''$schema'' (node_to_schema E (root_node r))"
    using assms(1) by (simp add: engine_no_uri_def)
  show ?thesis
    using to_schema_Some [OF assms(2), of E] lookup_uri_to_schema [OF nk, of r]
    by (simp add: get_dict_Some_iff py_or_def)
qed

theorem to_schema_uri_witness:
  "engine_no_uri sample_engine
   \<and> (\<exists>h' s d. to_schema sample_engine
          [Root \<lparr>root_node = (0, fmempty), schema_uri = JStr ''U1''\<rparr>] 0 = Some (h', s)
        \<and> get_dict h' s = Some d \<and> fmlookup d ''$schema'' = Some (JStr ''U1''))
   \<and> (\<exists>h' s d. to_schema sample_engine
          [Root \<lparr>root_node = (0, fmempty), schema_uri = JNull\<rparr>] 0 = Some (h', s)
        \<and> get_dict h' s = Some d \<and> fmlookup d ''$schema'' = Some DEFAULT_URI)"
proof -
  let ?r1 = "\<lparr>root_node = (0::nat, fmempty :: dict), schema_uri = JStr ''U1''\<rparr>"
  let ?r2 = "\<lparr>root_node = (0::nat, fmempty :: dict), schema_uri = JNull\<rparr>"
  have a1: "get_root [Root ?r1] 0 = Some ?r1"
    by (simp add: get_root_def lookup_def)
  have a2: "get_root [Root ?r2] 0 = Some ?r2"
    by (simp add: get_root_def lookup_def)
  show ?thesis
    using sample_no_uri to_schema_uri [OF sample_no_uri a1] to_schema_uri [OF sample_no_uri a2]
    by simp
qed

subsection \<open>What add_schema does to its argument and passes on\<close>

text \<open>
  Claim C4 (the caller's dictionary is not mutated). When \<^verbatim>\<open>add_schema\<close> is given a
  dictionary that has a \<^verbatim>\<open>$schema\<close> key, the key is deleted from a copy at another
  address, and after the call the caller's object holds the same dictionary as before,
  the key and its value included.
\<close>

theorem add_schema_keeps_caller_dict:
  assumes "get_root h a = Some r" and "get_dict h s = Some d" and "has_key ''$schema'' d"
  shows "\<exists>h1 s1 h2 s2 h'. resolve E h s = Some (h1, s1) \<and> strip_uri h1 a s1 = Some (h2, s2)
            \<and> s2 \<noteq> s \<and> get_dict h2 s2 = Some (fmdrop ''$schema'' d)
            \<and> add_schema E h a s = Some h' \<and> get_dict h' s = Some d"
proof -
  have ob: "lookup h s = Some (Dict d)"
    using assms(2) by (simp add: get_dict_Some_iff lookup_Some_iff)
  obtain v where v: "fmlookup d ''$schema'' = Some v"
    using assms(3) by (auto simp: has_key_def)
  have sa: "s \<noteq> a" and lt: "s < length h"
    using assms(1,2) by (auto simp: get_root_Some_iff get_dict_Some_iff)
  have res: "resolve E h s = Some (h, s)"
    using ob by (rule resolve_Dict)
  have st: "strip_uri h a s =
      Some (h[a := Root (r\<lparr>schema_uri := py_or (schema_uri r) v\<rparr>)] @ [Dict (fmdrop ''$schema'' d)],
            length h)"
    using assms(2) v assms(1) by (rule strip_uri_present)
  have gd: "get_dict (h[a := Root (r\<lparr>schema_uri := py_or (schema_uri r) v\<rparr>)] @ [Dict (fmdrop ''$schema'' d)])
      (length h) = Some (fmdrop ''$schema'' d)"
    by (simp add: get_dict_Some_iff nth_append)
  from add_schema_effect [OF assms(1) ob, of E] obtain h' where
    ad: "add_schema E h a s = Some h'" and len: "length h \<le> length h'" and
    fr: "\<forall>b<length h. b \<noteq> a \<longrightarrow> h' ! b = h ! b"
    by blast
  have "get_dict h' s = Some d"
    using fr sa lt len assms(2) by (auto simp: get_dict_Some_iff)
  with res st gd ad lt show ?thesis by auto
qed

theorem add_schema_keeps_caller_dict_witness:
  "has_key ''$schema'' (fmupd ''$schema'' (JStr ''U1'') (fmupd ''type'' (JStr ''object'') fmempty))
   \<and> (\<exists>h1 s1 h2 s2 h'.
      resolve sample_engine
        [Root \<lparr>root_node = (0, fmempty), schema_uri = JNull\<rparr>,
         Dict (fmupd ''$schema'' (JStr ''U1'') (fmupd ''type'' (JStr ''object'') fmempty))] 1
        = Some (h1, s1)
    \<and> strip_uri h1 0 s1 = Some (h2, s2) \<and> s2 \<noteq> 1
    \<and> get_dict h2 s2 =
        Some (fmdrop ''$schema'' (fmupd ''$schema'' (JStr ''U1'') (fmupd ''type'' (JStr ''object'') fmempty)))
    \<and> add_schema sample_engine
        [Root \<lparr>root_node = (0, fmempty), schema_uri = JNull\<rparr>,
         Dict (fmupd ''$schema'' (JStr ''U1'') (fmupd ''type'' (JStr ''object'') fmempty))] 0 1
        = Some h'
    \<and> get_dict h' 1 =
        Some (fmupd ''$schema'' (JStr ''U1'') (fmupd ''type'' (JStr ''object'') fmempty)))"
proof -
  let ?ra = "\<lparr>root_node = (0::nat, fmempty :: dict), schema_uri = JNull\<rparr>"
  let ?d = "fmupd ''$schema'' (JStr ''U1'') (fmupd ''type'' (JStr ''object'') fmempty)"
  have a: "get_root [Root ?ra, Dict ?d] 0 = Some ?ra"
    by (simp add: get_root_def lookup_def)
  have s: "get_dict [Root ?ra, Dict ?d] 1 = Some ?d"
    by (simp add: get_dict_def lookup_def)
  have k: "has_key ''$schema'' ?d"
    by (simp add: has_key_def)
  show ?thesis
    using k add_schema_keeps_caller_dict [OF a s k, of sample_engine] by simp
qed

text \<open>
  Claim C5. Whatever the argument of \<^verbatim>\<open>add_schema\<close> is (a dictionary, a root or a
  node), the dictionary that line 107 passes to the node's \<^verbatim>\<open>add_schema\<close> has no
  \<^verbatim>\<open>$schema\<close> key.
\<close>

theorem delegated_schema_has_no_uri:
  assumes "get_root h a = Some r" and "lookup h s = Some ob"
  shows "\<exists>h1 s1 h2 s2 d h' r'. resolve E h s = Some (h1, s1) \<and> strip_uri h1 a s1 = Some (h2, s2)
            \<and> get_dict h2 s2 = Some d \<and> \<not> has_key ''$schema'' d
            \<and> add_schema E h a s = delegate E h2 a s2
            \<and> delegate E h2 a s2 = Some h' \<and> get_root h' a = Some r'
            \<and> root_node r' = node_add_schema E (root_node r) d"
proof -
  from resolve_fragment_of [OF assms(2), of E] obtain h1 s1 where
    res: "resolve E h s = Some (h1, s1)" and
    gd: "get_dict h1 s1 = Some (fragment_of E ob)" and
    len1: "length h \<le> length h1" and tk: "take (length h) h1 = h"
    by blast
  have same: "\<And>b. b < length h \<Longrightarrow> h1 ! b = h ! b"
    using tk by (metis nth_take)
  have r1: "get_root h1 a = Some r"
    using assms(1) len1 same by (auto simp: get_root_Some_iff)
  from strip_delegate [OF r1 gd, of E] obtain h2 s2 h' where
    st: "strip_uri h1 a s1 = Some (h2, s2)" and
    gd2: "get_dict h2 s2 = Some (fmdrop ''$schema'' (fragment_of E ob))" and
    de: "delegate E h2 a s2 = Some h'" and
    fin: "get_root h' a =
       Some \<lparr>root_node = node_add_schema E (root_node r) (fmdrop ''$schema'' (fragment_of E ob)),
             schema_uri = (case fmlookup (fragment_of E ob) ''$schema'' of
                             None \<Rightarrow> schema_uri r
                           | Some v \<Rightarrow> py_or (schema_uri r) v)\<rparr>"
    by blast
  have ad: "add_schema E h a s = delegate E h2 a s2"
    using assms(1) res st by (simp add: add_schema_def)
  show ?thesis
    using res st gd2 not_has_key_fmdrop ad de fin by fastforce
qed

theorem delegated_schema_has_no_uri_witness:
  "\<exists>h1 s1 h2 s2 d h' r'.
      resolve sample_engine
        [Root \<lparr>root_node = (0, fmempty), schema_uri = JNull\<rparr>,
         Dict (fmupd ''$schema'' (JStr ''U1'') (fmupd ''type'' (JStr ''object'') fmempty))] 1
        = Some (h1, s1)
    \<and> strip_uri h1 0 s1 = Some (h2, s2)
    \<and> get_dict h2 s2 = Some d \<and> \<not> has_key ''$schema'' d
    \<and> add_schema sample_engine
        [Root \<lparr>root_node = (0, fmempty), schema_uri = JNull\<rparr>,
         Dict (fmupd ''$schema'' (JStr ''U1'') (fmupd ''type'' (JStr ''object'') fmempty))] 0 1
        = delegate sample_engine h2 0 s2
    \<and> delegate sample_engine h2 0 s2 = Some h' \<and> get_root h' 0 = Some r'
    \<and> root_node r' = node_add_schema sample_engine (0, fmempty) d"
proof -
  let ?ra = "\<lparr>root_node = (0::nat, fmempty :: dict), schema_uri = JNull\<rparr>"
  let ?d = "fmupd ''$schema'' (JStr ''U1'') (fmupd ''type'' (JStr ''object'') fmempty)"
  have a: "get_root [Root ?ra, Dict ?d] 0 = Some ?ra"
    by (simp add: get_root_def lookup_def)
  have s: "lookup [Root ?ra, Dict ?d] 1 = Some (Dict ?d)"
    by (simp add: lookup_def)
  show ?thesis
    using delegated_schema_has_no_uri [OF a s, of sample_engine] by simp
qed

subsection \<open>Equality, idempotence, emptiness\<close>





text \<open>
  Claim C8 (emptiness). With an engine that meets the size contract, a root has length
  \<open>0\<close> when it is constructed, and after any run of well-formed \<^verbatim>\<open>add_schema\<close> and
  \<^verbatim>\<open>add_object\<close> calls, on this root or on others, the run returns and the length of the
  root is \<open>0\<close> iff none of the calls had the root as its receiver. After a single call on
  it the length is therefore positive.
\<close>

theorem size_zero_iff_no_call:
  assumes "engine_size_contract E" and "schema_root_init E h u = (h0, a)"
    and "\<forall>c\<in>set cs. well_formed h0 c"
  shows "schema_root_len E h0 a = Some 0
       \<and> (\<exists>h' k. run E h0 cs = Some h' \<and> schema_root_len E h' a = Some k
              \<and> (k = 0 \<longleftrightarrow> (\<forall>c\<in>set cs. receiver c \<noteq> a)))"
proof -
  have size: "\<And>xs. (node_len E (node_run E xs) = 0) = (xs = [])"
    using assms(1) by (simp add: engine_size_contract_def)
  have r0: "get_root h0 a = Some \<lparr>root_node = node_init E, schema_uri = u\<rparr>"
    using assms(2) by (auto simp: schema_root_init_def alloc_def get_root_Some_iff)
  have n0: "root_node \<lparr>root_node = node_init E, schema_uri = u\<rparr> = foldl (node_step E) (node_init E) []"
    by simp
  have fresh: "schema_root_len E h0 a = Some 0"
    using r0 size [of "[]"] by (simp add: schema_root_len_def node_run_def)
  from run_history [OF assms(3) r0 n0] obtain h' r' ys where
    run: "run E h0 cs = Some h'" and r': "get_root h' a = Some r'" and
    n': "root_node r' = node_run E ys" and
    ys: "ys = [] \<longleftrightarrow> (\<forall>c\<in>set cs. receiver c \<noteq> a)"
    by (auto simp: node_run_def)
  have "schema_root_len E h' a = Some (node_len E (node_run E ys))"
    using r' n' by (simp add: schema_root_len_def)
  with fresh run ys size [of ys] show ?thesis by auto
qed

theorem size_zero_iff_no_call_witness:
  "engine_size_contract sample_engine
   \<and> schema_root_init sample_engine [Dict fmempty] JNull =
       ([Dict fmempty, Root \<lparr>root_node = (0, fmempty), schema_uri = JNull\<rparr>], 1)
   \<and> well_formed [Dict fmempty, Root \<lparr>root_node = (0::nat, fmempty::dict), schema_uri = JNull\<rparr>]
         (AddSchema 1 0)
   \<and> schema_root_len sample_engine
       [Dict fmempty, Root \<lparr>root_node = (0, fmempty), schema_uri = JNull\<rparr>] 1 = Some 0
   \<and> (\<exists>h' k. run sample_engine
         [Dict fmempty, Root \<lparr>root_node = (0, fmempty), schema_uri = JNull\<rparr>] [AddSchema 1 0] = Some h'
       \<and> schema_root_len sample_engine h' 1 = Some k \<and> 0 < k)"
proof -
  let ?h0 = "[Dict fmempty, Root \<lparr>root_node = (0::nat, fmempty :: dict), schema_uri = JNull\<rparr>]"
  have i: "schema_root_init sample_engine [Dict fmempty] JNull = (?h0, 1)"
    by (simp add: schema_root_init_def alloc_def sample_engine_def)
  have w: "well_formed ?h0 (AddSchema 1 0)"
    by (simp add: is_root_def get_root_def lookup_def)
  then have ws: "\<forall>c\<in>set [AddSchema 1 0]. well_formed ?h0 c"
    by simp
  have fresh: "schema_root_len sample_engine ?h0 1 = Some 0"
    and after: "\<exists>h' k. run sample_engine ?h0 [AddSchema 1 0] = Some h'
       \<and> schema_root_len sample_engine h' 1 = Some k \<and> 0 < k"
    using size_zero_iff_no_call [OF sample_size_contract i ws] by auto
  show ?thesis
    using sample_size_contract i w fresh after by blast
qed

subsection \<open>Frames\<close>

text \<open>
  Claim C9 (the frame of \<^verbatim>\<open>add_object\<close>). \<^verbatim>\<open>add_object\<close> returns, replaces the node of
  its receiver by the node's \<^verbatim>\<open>add_object\<close> and changes nothing else: the
  \<^verbatim>\<open>schema_uri\<close> and every other object are as before. \<^verbatim>\<open>to_schema\<close> leaves the
  root as it is as well; \<^verbatim>\<open>__len__\<close>, \<^verbatim>\<open>__eq__\<close> and \<^verbatim>\<open>__ne__\<close> assign nothing.
  Only \<^verbatim>\<open>add_schema\<close> assigns to \<^verbatim>\<open>schema_uri\<close>.
\<close>

theorem add_object_keeps_uri:
  assumes "get_root h a = Some r"
  shows "(\<exists>h'. add_object E h a v = Some h'
            \<and> get_root h' a = Some (r\<lparr>root_node := node_add_object E (root_node r) v\<rparr>)
            \<and> map_option schema_uri (get_root h' a) = Some (schema_uri r)
            \<and> length h' = length h
            \<and> (\<forall>b. b \<noteq> a \<longrightarrow> lookup h' b = lookup h b))
       \<and> (\<exists>h2 s. to_schema E h a = Some (h2, s) \<and> get_root h2 a = Some r)"
proof -
  have lt: "a < length h" and at: "h ! a = Root r"
    using assms by (simp_all add: get_root_Some_iff)
  have obj: "add_object E h a v =
      Some (h[a := Root (r\<lparr>root_node := node_add_object E (root_node r) v\<rparr>)])"
    using assms by (simp add: add_object_def)
  have new: "get_root (h[a := Root (r\<lparr>root_node := node_add_object E (root_node r) v\<rparr>)]) a =
      Some (r\<lparr>root_node := node_add_object E (root_node r) v\<rparr>)"
    using lt by (simp add: get_root_Some_iff)
  have others: "\<forall>b. b \<noteq> a \<longrightarrow>
      lookup (h[a := Root (r\<lparr>root_node := node_add_object E (root_node r) v\<rparr>)]) b = lookup h b"
    by (simp add: lookup_def)
  have ts: "get_root (h @ [Dict (dict_update (base_schema r) (node_to_schema E (root_node r)))]) a
      = Some r"
    using lt at by (simp add: get_root_Some_iff nth_append)
  show ?thesis
    using obj new others ts to_schema_Some [OF assms, of E] by simp
qed

theorem add_object_keeps_uri_witness:
  "(\<exists>h'. add_object sample_engine
        [Root \<lparr>root_node = (0, fmempty), schema_uri = JStr ''U1''\<rparr>, Dict fmempty] 0 (JInt 5)
        = Some h'
    \<and> map_option schema_uri (get_root h' 0) = Some (JStr ''U1'')
    \<and> length h' = 2
    \<and> lookup h' 1 = Some (Dict fmempty))
   \<and> (\<exists>h2 s. to_schema sample_engine
        [Root \<lparr>root_node = (0, fmempty), schema_uri = JStr ''U1''\<rparr>, Dict fmempty] 0
        = Some (h2, s)
    \<and> map_option schema_uri (get_root h2 0) = Some (JStr ''U1''))"
proof -
  let ?ra = "\<lparr>root_node = (0::nat, fmempty :: dict), schema_uri = JStr ''U1''\<rparr>"
  have a: "get_root [Root ?ra, Dict fmempty] 0 = Some ?ra"
    by (simp add: get_root_def lookup_def)
  have l: "lookup [Root ?ra, Dict fmempty] 1 = Some (Dict fmempty)"
    by (simp add: lookup_def)
  show ?thesis
    using add_object_keeps_uri [OF a, of sample_engine "JInt 5"] l by auto
qed

text \<open>
  Claim C10 (merging one root into another). The claim speaks of every pair of roots;
  it fails when both are the same object: \<^verbatim>\<open>a.add_schema(a)\<close> on a root built with
  \<^verbatim>\<open>SchemaRoot('')\<close> changes \<^verbatim>\<open>a.schema_uri\<close> from the empty string to the default.
\<close>

theorem self_merge_changes_uri:
  "add_schema sample_engine [Root \<lparr>root_node = (0, fmempty), schema_uri = JStr ''''\<rparr>] 0 0
   = Some [Root \<lparr>root_node = (1, fmempty),
                 schema_uri = JStr ''http://json-schema.org/schema#''\<rparr>,
           Dict (fmupd ''$schema'' (JStr ''http://json-schema.org/schema#'') fmempty),
           Dict fmempty]"
  by (simp add: add_schema_def get_root_def lookup_def resolve_def to_schema_def strip_uri_def
      get_dict_def alloc_def del_item_def has_key_def delegate_def py_or_def sample_engine_def
      fmdrop_fmupd_same base_schema_def dict_update_def DEFAULT_URI_def)

text \<open>
  Claim C10, as the code has it. For two distinct roots \<open>a\<close> and \<open>b\<close>,
  \<^verbatim>\<open>a.add_schema(b)\<close> returns and leaves \<open>b\<close> as it was: the same node and the same
  \<^verbatim>\<open>schema_uri\<close>, and \<^verbatim>\<open>b.to_schema()\<close> yields the same dictionary before and after.
\<close>

theorem add_schema_keeps_other_root:
  assumes "get_root h a = Some r" and "get_root h b = Some rb" and "a \<noteq> b"
  shows "\<exists>h' h1 s1 h1' s1' d. add_schema E h a b = Some h' \<and> get_root h' b = Some rb
            \<and> to_schema E h b = Some (h1, s1) \<and> get_dict h1 s1 = Some d
            \<and> to_schema E h' b = Some (h1', s1') \<and> get_dict h1' s1' = Some d"
proof -
  have ob: "lookup h b = Some (Root rb)"
    using assms(2) by (simp add: get_root_Some_iff lookup_Some_iff)
  from add_schema_effect [OF assms(1) ob, of E] obtain h' where
    ad: "add_schema E h a b = Some h'" and len: "length h \<le> length h'" and
    fr: "\<forall>c<length h. c \<noteq> a \<longrightarrow> h' ! c = h ! c"
    by blast
  have rb': "get_root h' b = Some rb"
    using assms(2,3) len fr by (auto simp: get_root_Some_iff)
  show ?thesis
    using ad rb' to_schema_Some [OF assms(2), of E] to_schema_Some [OF rb', of E]
    by (simp add: get_dict_snoc)
qed

theorem add_schema_keeps_other_root_witness:
  "\<exists>h' h1 s1 h1' s1' d.
      add_schema sample_engine
        [Root \<lparr>root_node = (0, fmempty), schema_uri = JNull\<rparr>,
         Root \<lparr>root_node = (1, fmupd ''type'' (JStr ''string'') fmempty), schema_uri = JNull\<rparr>] 0 1
        = Some h'
    \<and> get_root h' 1 =
        Some \<lparr>root_node = (1, fmupd ''type'' (JStr ''string'') fmempty), schema_uri = JNull\<rparr>
    \<and> to_schema sample_engine
        [Root \<lparr>root_node = (0, fmempty), schema_uri = JNull\<rparr>,
         Root \<lparr>root_node = (1, fmupd ''type'' (JStr ''string'') fmempty), schema_uri = JNull\<rparr>] 1
        = Some (h1, s1)
    \<and> get_dict h1 s1 = Some d
    \<and> to_schema sample_engine h' 1 = Some (h1', s1') \<and> get_dict h1' s1' = Some d"
proof -
  let ?ra = "\<lparr>root_node = (0::nat, fmempty :: dict), schema_uri = JNull\<rparr>"
  let ?rb = "\<lparr>root_node = (1::nat, fmupd ''type'' (JStr ''string'') fmempty), schema_uri = JNull\<rparr>"
  have a: "get_root [Root ?ra, Root ?rb] 0 = Some ?ra"
    by (simp add: get_root_def lookup_def)
  have b: "get_root [Root ?ra, Root ?rb] 1 = Some ?rb"
    by (simp add: get_root_def lookup_def)
  have ne: "(0::nat) \<noteq> 1" by simp
  show ?thesis
    using add_schema_keeps_other_root [OF a b ne, of sample_engine] by simp
qed

end
